theory Spec2Isabelle
  imports Main
begin

section \<open>Strings\<close>

text \<open>
  A Python \<open>str\<close> is a sequence of code points. It is modelled as a HOL \<open>string\<close>, one
  \<open>char\<close> per code point, which covers the code points U+0000 to U+00FF; \<open>length\<close>
  counts code points, as Python's \<open>len\<close> does. The character classes below are
  Python's \<open>str.isalnum\<close> and \<open>str.isspace\<close> on that range.
\<close>

definition isalnum :: "char \<Rightarrow> bool" where
  "isalnum c =
     (let n = (of_char c :: nat) in
        (48 \<le> n \<and> n \<le> 57) \<or> (65 \<le> n \<and> n \<le> 90) \<or> (97 \<le> n \<and> n \<le> 122) \<or>
        n = 170 \<or> n = 178 \<or> n = 179 \<or> n = 181 \<or> n = 185 \<or> n = 186 \<or>
        (188 \<le> n \<and> n \<le> 190) \<or> (192 \<le> n \<and> n \<le> 214) \<or> (216 \<le> n \<and> n \<le> 246) \<or>
        248 \<le> n)"

definition isspace :: "char \<Rightarrow> bool" where
  "isspace c =
     (let n = (of_char c :: nat) in
        (9 \<le> n \<and> n \<le> 13) \<or> (28 \<le> n \<and> n \<le> 32) \<or> n = 133 \<or> n = 160)"

definition strip :: "string \<Rightarrow> string" where
  \<comment> \<open>\<open>str.strip()\<close>: leading and trailing whitespace removed.\<close>
  "strip s = rev (dropWhile isspace (rev (dropWhile isspace s)))"

definition startswith :: "string \<Rightarrow> string \<Rightarrow> bool" where
  "startswith s p = (take (length p) s = p)"

definition endswith :: "string \<Rightarrow> string \<Rightarrow> bool" where
  "endswith s p = (length p \<le> length s \<and> drop (length s - length p) s = p)"

text \<open>
  \<open>str.replace(old, new)\<close>: the string is scanned from the left; at each position where
  \<open>old\<close> starts it is replaced by \<open>new\<close> and the scan goes on behind the occurrence
  (occurrences do not overlap). With an empty \<open>old\<close>, \<open>new\<close> is put before every
  character and at the end.
\<close>

function replace :: "string \<Rightarrow> string \<Rightarrow> string \<Rightarrow> string" where
  "replace old new s =
     (if old = [] then new @ concat (map (\<lambda>c. c # new) s)
      else if s = [] then []
      else if startswith s old then new @ replace old new (drop (length old) s)
      else hd s # replace old new (tl s))"
  by pat_completeness auto
termination
  by (relation "measure (\<lambda>(old, new, s). length s)") auto

declare replace.simps [simp del]

section \<open>Filename derivation\<close>

text \<open>
  \<^verbatim>\<open>
  def sanitize_filename(self, url: str) -> str:
      filename = url.replace('https://', '').replace('http://', '')
      filename = filename.replace('/', '_').replace('?', '_').replace('&', '_')
      filename = ''.join(c for c in filename if c.isalnum() or c in '._-')
      return filename[:100] + '.pdf'
  \<close>
  The first assignment is \<open>remove_scheme\<close>.
\<close>

definition remove_scheme :: "string \<Rightarrow> string" where
  "remove_scheme url = replace ''http://'' '''' (replace ''https://'' '''' url)"

definition permitted :: "char \<Rightarrow> bool" where
  "permitted c = (isalnum c \<or> c \<in> set ''._-'')"

definition sanitize_filename :: "string \<Rightarrow> string" where
  "sanitize_filename url =
     (let filename = remove_scheme url;
          filename = replace ''&'' ''_'' (replace ''?'' ''_'' (replace ''/'' ''_'' filename));
          filename = filter permitted filename
      in take 100 filename @ ''.pdf'')"

text \<open>What the specification says the first step does: only a leading scheme is removed.\<close>

definition spec_strip_leading_scheme :: "string \<Rightarrow> string" where
  "spec_strip_leading_scheme url =
     (if startswith url ''https://'' then drop 8 url
      else if startswith url ''http://'' then drop 7 url
      else url)"

text \<open>
  Deleting every occurrence of \<open>old\<close> from a string, said with the leftmost occurrence:
  \<open>find_first\<close> is the least index at which \<open>old\<close> occurs (\<open>str.find\<close>);
  \<open>delete_all\<close> cuts the leftmost occurrence out, keeps the text before it, and goes
  on in the text behind it until no occurrence is left there.
\<close>

definition occurs_at :: "string \<Rightarrow> string \<Rightarrow> nat \<Rightarrow> bool" where
  "occurs_at old s i = (i \<le> length s \<and> take (length old) (drop i s) = old)"

fun find_first :: "string \<Rightarrow> string \<Rightarrow> nat option" where
  "find_first old [] = (if old = [] then Some 0 else None)"
| "find_first old (c # cs) =
     (if startswith (c # cs) old then Some 0 else map_option Suc (find_first old cs))"

function delete_all :: "string \<Rightarrow> string \<Rightarrow> string" where
  "delete_all old s =
     (if old = [] then s
      else case find_first old s of
             None \<Rightarrow> s
           | Some i \<Rightarrow> take i s @ delete_all old (drop (i + length old) s))"
  by pat_completeness auto
termination
proof (relation "measure (\<lambda>(old, s). length s)")
  show "wf (measure (\<lambda>(old, s). length s))"
    by simp
next
  fix old s :: string and i :: nat
  assume "old \<noteq> []" and "find_first old s = Some i"
  then have "s \<noteq> []"
    by (cases s) auto
  with \<open>old \<noteq> []\<close>
  show "((old, drop (i + length old) s), (old, s)) \<in> measure (\<lambda>(old, s). length s)"
    by simp
qed

declare delete_all.simps [simp del]

section \<open>Exceptions, the log, the file system\<close>

text \<open>
  An exception is kept as the text \<open>str(e)\<close> that the handlers write to the log. Every
  exception of the model is an instance of \<open>Exception\<close>, which is what the handlers of
  the source catch.
\<close>

datatype exn = PyException (str_exn: string)

datatype level = INFO | WARNING | ERROR

text \<open>
  A regular file is represented by what iterating over it in text mode yields: its lines in
  order, and an error at the point where decoding or reading fails. A file just opened
  for writing is empty. Path strings are taken in the normal form of \<open>pathlib\<close> (no empty
  component, no trailing slash, the current directory written \<open>.\<close>); access rights are
  not modelled.
\<close>

datatype read_event = Line string | ReadError exn

type_synonym content = "read_event list"

datatype node = Dir | File content

type_synonym filesystem = "(string \<times> node) list"

definition is_file :: "filesystem \<Rightarrow> string \<Rightarrow> bool" where
  "is_file fs p = (case map_of fs p of Some (File c) \<Rightarrow> True | _ \<Rightarrow> False)"

definition is_dir :: "filesystem \<Rightarrow> string \<Rightarrow> bool" where
  "is_dir fs p = (case map_of fs p of Some Dir \<Rightarrow> True | _ \<Rightarrow> False)"

definition Path :: "string \<Rightarrow> string" where
  \<comment> \<open>\<open>Path('')\<close> is the current directory.\<close>
  "Path s = (if s = [] then ''.'' else s)"

definition parent :: "string \<Rightarrow> string" where
  "parent p =
     (let d = rev (drop 1 (dropWhile (\<lambda>c. c \<noteq> CHR ''/'') (rev p)))
      in if CHR ''/'' \<notin> set p then ''.'' else if d = [] then ''/'' else d)"

definition path_join :: "string \<Rightarrow> string \<Rightarrow> string" where
  \<comment> \<open>\<open>directory / name\<close>\<close>
  "path_join d name = (if d = ''.'' then name else if d = ''/'' then d @ name else d @ ''/'' @ name)"

definition fs_put :: "string \<Rightarrow> node \<Rightarrow> filesystem \<Rightarrow> filesystem" where
  "fs_put p n fs = (p, n) # filter (\<lambda>e. fst e \<noteq> p) fs"

definition mkdir_exist_ok :: "filesystem \<Rightarrow> string \<Rightarrow> exn + filesystem" where
  \<comment> \<open>\<open>Path.mkdir(exist_ok=True)\<close>; \<open>parents\<close> keeps its default \<open>False\<close>.\<close>
  "mkdir_exist_ok fs p =
     (case map_of fs p of
        Some Dir \<Rightarrow> Inr fs
      | Some (File c) \<Rightarrow> Inl (PyException (''[Errno 17] File exists: '' @ p))
      | None \<Rightarrow>
          if is_dir fs (parent p) then Inr (fs_put p Dir fs)
          else Inl (PyException (''[Errno 2] No such file or directory: '' @ p)))"

definition open_r :: "filesystem \<Rightarrow> string \<Rightarrow> exn + content" where
  "open_r fs p =
     (case map_of fs p of
        Some (File c) \<Rightarrow> Inr c
      | Some Dir \<Rightarrow> Inl (PyException (''[Errno 21] Is a directory: '' @ p))
      | None \<Rightarrow> Inl (PyException (''[Errno 2] No such file or directory: '' @ p)))"

definition open_w :: "filesystem \<Rightarrow> string \<Rightarrow> exn + filesystem" where
  \<comment> \<open>mode \<open>'wb'\<close>: the file is created, or truncated when it exists\<close>
  "open_w fs p =
     (case map_of fs p of
        Some Dir \<Rightarrow> Inl (PyException (''[Errno 21] Is a directory: '' @ p))
      | Some (File c) \<Rightarrow> Inr (fs_put p (File []) fs)
      | None \<Rightarrow>
          if is_dir fs (parent p) then Inr (fs_put p (File []) fs)
          else Inl (PyException (''[Errno 2] No such file or directory: '' @ p)))"

definition open_a :: "filesystem \<Rightarrow> string \<Rightarrow> exn + filesystem" where
  \<comment> \<open>mode \<open>'a'\<close>: the file is created when it does not exist\<close>
  "open_a fs p =
     (case map_of fs p of
        Some Dir \<Rightarrow> Inl (PyException (''[Errno 21] Is a directory: '' @ p))
      | Some (File c) \<Rightarrow> Inr fs
      | None \<Rightarrow>
          if is_dir fs (parent p) then Inr (fs_put p (File []) fs)
          else Inl (PyException (''[Errno 2] No such file or directory: '' @ p)))"

definition glob_txt :: "filesystem \<Rightarrow> string \<Rightarrow> string list" where
  \<comment> \<open>\<open>directory.glob("*.txt")\<close>: the entries of the directory itself whose name ends in \<open>.txt\<close>\<close>
  "glob_txt fs d = filter (\<lambda>p. parent p = d \<and> endswith p ''.txt'') (remdups (map fst fs))"

section \<open>Decimal numbers in messages\<close>

function str_nat :: "nat \<Rightarrow> string" where
  "str_nat n =
     (if n < 10 then [char_of (48 + n)] else str_nat (n div 10) @ [char_of (48 + n mod 10)])"
  by pat_completeness auto
termination
  by (relation "measure id") auto

declare str_nat.simps [simp del]

section \<open>The world: files, log, calls to the external renderers\<close>

text \<open>
  The calls that leave the program, in the order they are made.
\<close>

datatype event =
    PdfkitFromUrl string string
  | ChromeLaunch bool
  | DriverGet string
  | WaitForBody
  | PrintToPDF
  | DriverQuit

record world =
  files :: filesystem
  logged :: "(level \<times> string) list"
  calls :: "event list"
  printed :: "string list"

text \<open>
  The external collaborators. Each one answers a call with an exception or a value; the
  answer may depend on the calls made so far. \<open>pdfkit_from_url\<close> yields the file it
  renders, \<open>execute_cdp_cmd\<close> the \<open>data\<close> field of the answer to
  \<open>Page.printToPDF\<close>.
\<close>

record env =
  pdfkit_from_url :: "event list \<Rightarrow> string \<Rightarrow> string \<Rightarrow> exn + content"
  webdriver_Chrome :: "event list \<Rightarrow> bool \<Rightarrow> exn + unit"
  driver_get :: "event list \<Rightarrow> string \<Rightarrow> exn + unit"
  wait_until_body :: "event list \<Rightarrow> exn + unit"
  execute_cdp_cmd :: "event list \<Rightarrow> exn + string"
  b64decode :: "string \<Rightarrow> exn + content"
  driver_quit :: "event list \<Rightarrow> exn + unit"

record agent =
  output_dir :: string
  headless :: bool

definition log_msg :: "level \<Rightarrow> string \<Rightarrow> world \<Rightarrow> world" where
  "log_msg l m w = w\<lparr>logged := logged w @ [(l, m)]\<rparr>"

text \<open>Statements that may raise: a result or an exception, and the world afterwards.\<close>

type_synonym 'a stmt = "world \<Rightarrow> (exn + 'a) \<times> world"

definition bindE :: "'a stmt \<Rightarrow> ('a \<Rightarrow> 'b stmt) \<Rightarrow> 'b stmt" where
  "bindE m f w = (case m w of (Inl e, w') \<Rightarrow> (Inl e, w') | (Inr x, w') \<Rightarrow> f x w')"

definition try_finally :: "'a stmt \<Rightarrow> unit stmt \<Rightarrow> 'a stmt" where
  \<comment> \<open>an exception of the \<open>finally\<close> block replaces the outcome of the \<open>try\<close> block\<close>
  "try_finally m fin w =
     (case m w of (r, w') \<Rightarrow>
        (case fin w' of (Inl e, w'') \<Rightarrow> (Inl e, w'') | (Inr u, w'') \<Rightarrow> (r, w'')))"

definition ext_call :: "event \<Rightarrow> (event list \<Rightarrow> exn + 'a) \<Rightarrow> 'a stmt" where
  "ext_call ev answer w = (answer (calls w), w\<lparr>calls := calls w @ [ev]\<rparr>)"

definition lift :: "exn + 'a \<Rightarrow> 'a stmt" where
  "lift r w = (r, w)"

definition fs_stmt :: "(filesystem \<Rightarrow> exn + filesystem) \<Rightarrow> unit stmt" where
  "fs_stmt f w = (case f (files w) of Inl e \<Rightarrow> (Inl e, w) | Inr fs' \<Rightarrow> (Inr (), w\<lparr>files := fs'\<rparr>))"

section \<open>Reading the URL list\<close>

text \<open>
  \<^verbatim>\<open>
  def read_urls_from_file(self, file_path: str) -> List[str]:
      urls = []
      try:
          with open(file_path, 'r', encoding='utf-8') as f:
              for line_num, line in enumerate(f, 1):
                  line = line.strip()
                  if line and not line.startswith('#'):
                      if line.startswith('http://') or line.startswith('https://'):
                          urls.append(line)
                      else:
                          self.logger.warning(f"Invalid URL at line {line_num}: {line}")
          self.logger.info(f"Read {len(urls)} URLs from {file_path}")
      except Exception as e:
          self.logger.error(f"Error reading file {file_path}: {e}")
      return urls
  \<close>
  \<open>read_lines\<close> is the \<open>for\<close> loop; it returns the exception that ended it, if any,
  with the list \<open>urls\<close> as it is then.
\<close>

fun read_lines :: "(nat \<times> read_event) list \<Rightarrow> string list \<Rightarrow> world \<Rightarrow> exn option \<times> string list \<times> world" where
  "read_lines [] urls w = (None, urls, w)"
| "read_lines ((line_num, ReadError e) # rest) urls w = (Some e, urls, w)"
| "read_lines ((line_num, Line l) # rest) urls w =
     (let line = strip l in
      if line \<noteq> [] \<and> \<not> startswith line ''#'' then
        if startswith line ''http://'' \<or> startswith line ''https://'' then
          read_lines rest (urls @ [line]) w
        else
          read_lines rest urls
            (log_msg WARNING (''Invalid URL at line '' @ str_nat line_num @ '': '' @ line) w)
      else read_lines rest urls w)"

definition read_urls_from_file :: "string \<Rightarrow> world \<Rightarrow> string list \<times> world" where
  "read_urls_from_file file_path w =
     (case open_r (files w) file_path of
        Inl e \<Rightarrow>
          ([], log_msg ERROR (''Error reading file '' @ file_path @ '': '' @ str_exn e) w)
      | Inr f \<Rightarrow>
          (case read_lines (List.enumerate 1 f) [] w of
             (Some e, urls, w') \<Rightarrow>
               (urls, log_msg ERROR (''Error reading file '' @ file_path @ '': '' @ str_exn e) w')
           | (None, urls, w') \<Rightarrow>
               (urls,
                log_msg INFO (''Read '' @ str_nat (length urls) @ '' URLs from '' @ file_path) w')))"

text \<open>The three verdicts on a trimmed line, in the words of the specification.\<close>

datatype verdict = Skipped | Accepted | Rejected

definition classify :: "string \<Rightarrow> verdict" where
  "classify line =
     (if line = [] \<or> startswith line ''#'' then Skipped
      else if startswith line ''http://'' \<or> startswith line ''https://'' then Accepted
      else Rejected)"

definition accepted_urls :: "string list \<Rightarrow> string list" where
  "accepted_urls ls = filter (\<lambda>line. classify line = Accepted) (map strip ls)"

definition invalid_warnings :: "nat \<Rightarrow> string list \<Rightarrow> (level \<times> string) list" where
  "invalid_warnings n ls =
     map (\<lambda>(line_num, l). (WARNING, ''Invalid URL at line '' @ str_nat line_num @ '': '' @ strip l))
       (filter (\<lambda>(line_num, l). classify (strip l) = Rejected) (List.enumerate n ls))"

section \<open>The two renderers\<close>

text \<open>
  \<^verbatim>\<open>
  def create_pdf_with_wkhtmltopdf(self, url: str, output_path: str) -> bool:
      try:
          options = { ... }
          pdfkit.from_url(url, output_path, options=options)
          self.logger.info(f"PDF created successfully: {output_path}")
          return True
      except Exception as e:
          self.logger.error(f"Error creating PDF with wkhtmltopdf for {url}: {e}")
          return False
  \<close>
  \<open>pdfkit.from_url\<close> writes the file it renders to \<open>output_path\<close>, and raises when
  that cannot be written.
\<close>

definition write_file :: "string \<Rightarrow> content \<Rightarrow> filesystem \<Rightarrow> exn + filesystem" where
  "write_file p c fs = (case open_w fs p of Inl e \<Rightarrow> Inl e | Inr fs' \<Rightarrow> Inr (fs_put p (File c) fs'))"

definition create_pdf_with_wkhtmltopdf :: "env \<Rightarrow> string \<Rightarrow> string \<Rightarrow> world \<Rightarrow> bool \<times> world" where
  "create_pdf_with_wkhtmltopdf E url output_path w =
     (case bindE (ext_call (PdfkitFromUrl url output_path) (\<lambda>h. pdfkit_from_url E h url output_path))
             (\<lambda>pdf. fs_stmt (write_file output_path pdf)) w of
        (Inr u, w') \<Rightarrow> (True, log_msg INFO (''PDF created successfully: '' @ output_path) w')
      | (Inl e, w') \<Rightarrow>
          (False,
           log_msg ERROR (''Error creating PDF with wkhtmltopdf for '' @ url @ '': '' @ str_exn e) w'))"

text \<open>
  The names bound in the module when a method runs: its imports, the class and \<open>main\<close>.
  A global name that is neither among them nor a builtin raises \<open>NameError\<close>.
  \<^verbatim>\<open>
  import os
  import sys
  import logging
  import argparse
  from pathlib import Path
  from typing import List, Optional
  import requests
  from selenium import webdriver
  from selenium.webdriver.chrome.options import Options
  from selenium.webdriver.common.by import By
  from selenium.webdriver.support.ui import WebDriverWait
  from selenium.webdriver.support import expected_conditions as EC
  import pdfkit
  \<close>
\<close>

definition module_globals :: "string list" where
  "module_globals =
     [''os'', ''sys'', ''logging'', ''argparse'', ''Path'', ''List'', ''Optional'', ''requests'',
      ''webdriver'', ''Options'', ''By'', ''WebDriverWait'', ''EC'', ''pdfkit'',
      ''URLToPDFAgent'', ''main'']"

definition global_name :: "string \<Rightarrow> exn + unit" where
  "global_name n =
     (if n \<in> set module_globals then Inr ()
      else Inl (PyException (''name '' @ [CHR 0x27] @ n @ [CHR 0x27] @ '' is not defined'')))"

text \<open>
  \<^verbatim>\<open>
  def create_pdf_with_selenium(self, url: str, output_path: str) -> bool:
      try:
          chrome_options = Options()
          ...
          driver = webdriver.Chrome(options=chrome_options)
          try:
              driver.get(url)
              WebDriverWait(driver, 10).until(
                  EC.presence_of_element_located((By.TAG_NAME, "body")))
              print_options = { ... }
              pdf_data = driver.execute_cdp_cmd("Page.printToPDF", print_options)
              with open(output_path, 'wb') as f:
                  f.write(base64.b64decode(pdf_data['data']))
              self.logger.info(f"PDF created successfully with Selenium: {output_path}")
              return True
          finally:
              driver.quit()
      except Exception as e:
          self.logger.error(f"Error creating PDF with Selenium for {url}: {e}")
          return False
  \<close>
  \<open>selenium_capture\<close> is the body of the inner \<open>try\<close>. In the argument of
  \<open>f.write\<close> the name \<open>base64\<close> is looked up first, then the payload is decoded.
\<close>

definition selenium_capture :: "env \<Rightarrow> string \<Rightarrow> string \<Rightarrow> bool stmt" where
  "selenium_capture E url output_path =
     bindE (ext_call (DriverGet url) (\<lambda>h. driver_get E h url)) (\<lambda>u.
     bindE (ext_call WaitForBody (wait_until_body E)) (\<lambda>u.
     bindE (ext_call PrintToPDF (execute_cdp_cmd E)) (\<lambda>pdf_data.
     bindE (fs_stmt (\<lambda>fs. open_w fs output_path)) (\<lambda>f.
     bindE (lift (global_name ''base64'')) (\<lambda>u.
     bindE (lift (b64decode E pdf_data)) (\<lambda>bytes.
     bindE (fs_stmt (\<lambda>fs. Inr (fs_put output_path (File bytes) fs))) (\<lambda>u.
       (\<lambda>w. (Inr True,
          log_msg INFO (''PDF created successfully with Selenium: '' @ output_path) w)))))))))"

definition create_pdf_with_selenium :: "env \<Rightarrow> agent \<Rightarrow> string \<Rightarrow> string \<Rightarrow> world \<Rightarrow> bool \<times> world" where
  "create_pdf_with_selenium E self url output_path w =
     (case bindE (ext_call (ChromeLaunch (headless self)) (\<lambda>h. webdriver_Chrome E h (headless self)))
             (\<lambda>driver. try_finally (selenium_capture E url output_path)
                          (ext_call DriverQuit (driver_quit E))) w of
        (Inr b, w') \<Rightarrow> (b, w')
      | (Inl e, w') \<Rightarrow>
          (False,
           log_msg ERROR (''Error creating PDF with Selenium for '' @ url @ '': '' @ str_exn e) w'))"

section \<open>The batch driver\<close>

text \<open>
  \<^verbatim>\<open>
  def process_url(self, url: str) -> bool:
      filename = self.sanitize_filename(url)
      output_path = self.output_dir / filename
      self.logger.info(f"Processing URL: {url}")
      if self.create_pdf_with_wkhtmltopdf(url, str(output_path)):
          return True
      else:
          self.logger.info(f"Falling back to Selenium for {url}")
          return self.create_pdf_with_selenium(url, str(output_path))
  \<close>
\<close>

definition process_url :: "env \<Rightarrow> agent \<Rightarrow> string \<Rightarrow> world \<Rightarrow> bool \<times> world" where
  "process_url E self url w =
     (let filename = sanitize_filename url;
          output_path = path_join (output_dir self) filename;
          w0 = log_msg INFO (''Processing URL: '' @ url) w
      in case create_pdf_with_wkhtmltopdf E url output_path w0 of
           (True, w1) \<Rightarrow> (True, w1)
         | (False, w1) \<Rightarrow>
             create_pdf_with_selenium E self url output_path
               (log_msg INFO (''Falling back to Selenium for '' @ url) w1))"

text \<open>
  \<^verbatim>\<open>
  def process_file(self, file_path: str) -> None:
      urls = self.read_urls_from_file(file_path)
      if not urls:
          self.logger.warning(f"No valid URLs found in {file_path}")
          return
      success_count = 0
      for url in urls:
          if self.process_url(url):
              success_count += 1
      self.logger.info(
          f"Processed {success_count}/{len(urls)} URLs successfully from {file_path}")
  \<close>
\<close>

fun process_urls :: "env \<Rightarrow> agent \<Rightarrow> string list \<Rightarrow> nat \<Rightarrow> world \<Rightarrow> nat \<times> world" where
  "process_urls E self [] success_count w = (success_count, w)"
| "process_urls E self (url # urls) success_count w =
     (case process_url E self url w of
        (ok, w') \<Rightarrow> process_urls E self urls (if ok then success_count + 1 else success_count) w')"

definition process_file :: "env \<Rightarrow> agent \<Rightarrow> string \<Rightarrow> world \<Rightarrow> world" where
  "process_file E self file_path w =
     (case read_urls_from_file file_path w of
        (urls, w1) \<Rightarrow>
          if urls = [] then log_msg WARNING (''No valid URLs found in '' @ file_path) w1
          else
            (case process_urls E self urls 0 w1 of
               (success_count, w2) \<Rightarrow>
                 log_msg INFO (''Processed '' @ str_nat success_count @ ''/'' @ str_nat (length urls)
                   @ '' URLs successfully from '' @ file_path) w2))"

text \<open>
  \<^verbatim>\<open>
  def process_directory(self, directory_path: str) -> None:
      directory = Path(directory_path)
      txt_files = list(directory.glob("*.txt"))
      if not txt_files:
          self.logger.warning(f"No .txt files found in {directory_path}")
          return
      for txt_file in txt_files:
          self.logger.info(f"Processing file: {txt_file}")
          self.process_file(str(txt_file))
  \<close>
\<close>

fun process_files :: "env \<Rightarrow> agent \<Rightarrow> string list \<Rightarrow> world \<Rightarrow> world" where
  "process_files E self [] w = w"
| "process_files E self (txt_file # rest) w =
     process_files E self rest
       (process_file E self txt_file (log_msg INFO (''Processing file: '' @ txt_file) w))"

definition process_directory :: "env \<Rightarrow> agent \<Rightarrow> string \<Rightarrow> world \<Rightarrow> world" where
  "process_directory E self directory_path w =
     (let directory = Path directory_path;
          txt_files = glob_txt (files w) directory
      in if txt_files = [] then log_msg WARNING (''No .txt files found in '' @ directory_path) w
         else process_files E self txt_files w)"

section \<open>Construction of the agent and the entry point\<close>

text \<open>
  \<^verbatim>\<open>
  def __init__(self, output_dir: str = "pdf_output", headless: bool = True):
      self.output_dir = Path(output_dir)
      self.output_dir.mkdir(exist_ok=True)
      self.headless = headless
      self.setup_logging()
  \<close>
  \<open>setup_logging\<close> builds \<open>logging.FileHandler('url_to_pdf_agent.log')\<close>, which opens
  that file for appending. The records themselves are kept in \<open>logged\<close>.
\<close>

definition setup_logging :: "unit stmt" where
  "setup_logging = fs_stmt (\<lambda>fs. open_a fs ''url_to_pdf_agent.log'')"

definition URLToPDFAgent_init :: "string \<Rightarrow> bool \<Rightarrow> agent stmt" where
  "URLToPDFAgent_init out hl =
     bindE (fs_stmt (\<lambda>fs. mkdir_exist_ok fs (Path out))) (\<lambda>u.
     bindE setup_logging (\<lambda>u.
       lift (Inr \<lparr>output_dir = Path out, headless = hl\<rparr>)))"

text \<open>
  \<^verbatim>\<open>
  args = parser.parse_args()
  agent = URLToPDFAgent(output_dir=args.output, headless=not args.no_headless)
  input_path = Path(args.input)
  if input_path.is_file():
      agent.process_file(str(input_path))
  elif input_path.is_dir():
      agent.process_directory(str(input_path))
  else:
      print(f"Error: {args.input} is not a valid file or directory")
      sys.exit(1)
  \<close>
  \<open>main\<close> starts from the parsed arguments and returns the exit status of the process
  with the world it leaves. An exception that nothing catches ends the process with
  status 1.
\<close>

record args =
  arg_input :: string
  arg_output :: string
  arg_no_headless :: bool

definition main :: "env \<Rightarrow> args \<Rightarrow> world \<Rightarrow> nat \<times> world" where
  "main E a w =
     (case URLToPDFAgent_init (arg_output a) (\<not> arg_no_headless a) w of
        (Inl e, w1) \<Rightarrow> (1, w1)
      | (Inr self, w1) \<Rightarrow>
          (let input_path = Path (arg_input a) in
           if is_file (files w1) input_path then (0, process_file E self input_path w1)
           else if is_dir (files w1) input_path then (0, process_directory E self input_path w1)
           else
             (1, w1\<lparr>printed := printed w1 @
                [''Error: '' @ arg_input a @ '' is not a valid file or directory'']\<rparr>)))"

definition fallback_invocations :: "event list \<Rightarrow> nat" where
  \<comment> \<open>every run of \<open>create_pdf_with_selenium\<close> starts with one launch of the browser\<close>
  "fallback_invocations evs = length (filter (\<lambda>ev. case ev of ChromeLaunch h \<Rightarrow> True | _ \<Rightarrow> False) evs)"

definition render_attempts :: "event list \<Rightarrow> nat" where
  "render_attempts evs =
     length (filter (\<lambda>ev. case ev of PdfkitFromUrl u p \<Rightarrow> True | ChromeLaunch h \<Rightarrow> True | _ \<Rightarrow> False) evs)"

section \<open>Concrete inputs\<close>

text \<open>An environment in which every external call succeeds, and one whose first renderer fails.\<close>

definition all_fine :: env where
  "all_fine =
     \<lparr>pdfkit_from_url = (\<lambda>h u p. Inr [Line ''%PDF-1.4'']),
      webdriver_Chrome = (\<lambda>h b. Inr ()),
      driver_get = (\<lambda>h u. Inr ()),
      wait_until_body = (\<lambda>h. Inr ()),
      execute_cdp_cmd = (\<lambda>h. Inr ''JVBERi0xLjQ=''),
      b64decode = (\<lambda>s. Inr [Line ''%PDF-1.4'']),
      driver_quit = (\<lambda>h. Inr ())\<rparr>"

definition primary_fails :: env where
  "primary_fails =
     all_fine\<lparr>pdfkit_from_url := (\<lambda>h u p. Inl (PyException ''wkhtmltopdf reported an error''))\<rparr>"

definition world0 :: world where
  "world0 =
     \<lparr>files =
        [(''.'', Dir),
         (''pdf_output'', Dir),
         (''urls.txt'', File [Line ''https://example.com\<newline>'', Line ''not-a-url\<newline>'',
            Line ''# comment\<newline>'', Line ''\<newline>'']),
         (''broken.txt'', File [Line ''http://a.example/\<newline>'',
            ReadError (PyException ''invalid start byte'')]),
         (''notes.txt'', File [Line ''# nothing here\<newline>''])],
      logged = [], calls = [], printed = []\<rparr>"

definition agent0 :: agent where
  "agent0 = \<lparr>output_dir = ''pdf_output'', headless = True\<rparr>"

section \<open>Properties of filename derivation\<close>

lemma replace_skip:
  assumes "old \<noteq> []" and "hd old \<notin> set a"
  shows "replace old new (a @ s) = a @ replace old new s"
  using assms
proof (induction a)
  case Nil
  then show ?case by simp
next
  case (Cons c a)
  have "\<not> startswith ((c # a) @ s) old"
    using Cons.prems by (cases old) (auto simp: startswith_def)
  then have "replace old new ((c # a) @ s) = c # replace old new (a @ s)"
    using Cons.prems by (subst replace.simps) simp
  with Cons show ?case by simp
qed

lemma replace_at_start:
  assumes "old \<noteq> []"
  shows "replace old new (old @ s) = new @ replace old new s"
  using assms by (subst replace.simps) (simp add: startswith_def)

text \<open>
  Claim C5. Filename derivation is a total function of the input string; its result ends
  in \<open>.pdf\<close>, is at most 104 characters long, and every character before the suffix
  is alphanumeric or one of \<open>.\<close>, \<open>_\<close>, \<open>-\<close>.
\<close>

theorem sanitize_filename_shape:
  "let f = sanitize_filename url; n = length f in
     4 \<le> n \<and> n \<le> 104 \<and> drop (n - 4) f = ''.pdf'' \<and>
     (\<forall>c \<in> set (take (n - 4) f). isalnum c \<or> c \<in> set ''._-'')"
proof -
  define body where
    "body = take 100 (filter permitted
       (replace ''&'' ''_'' (replace ''?'' ''_'' (replace ''/'' ''_'' (remove_scheme url)))))"
  have f: "sanitize_filename url = body @ ''.pdf''"
    by (simp add: sanitize_filename_def body_def)
  have len: "length body \<le> 100"
    by (simp add: body_def)
  have chars: "\<forall>c \<in> set body. permitted c"
    unfolding body_def by (auto dest: in_set_takeD)
  have n: "length (sanitize_filename url) - 4 = length body"
    by (simp add: f)
  show ?thesis
    unfolding Let_def n using len chars
    by (simp add: f permitted_def)
qed

theorem sanitize_filename_shape_witness:
  "sanitize_filename ''https://example.com/a?b=1&c=2'' = ''example.com_a_b1_c2.pdf'' \<and>
   CHR ''e'' \<in> set (take (length (sanitize_filename ''https://example.com/a?b=1&c=2'') - 4)
      (sanitize_filename ''https://example.com/a?b=1&c=2'')) \<and>
   (isalnum (CHR ''e'') \<or> CHR ''e'' \<in> set ''._-'')"
proof -
  have v: "sanitize_filename ''https://example.com/a?b=1&c=2'' = ''example.com_a_b1_c2.pdf''"
    by code_simp
  have m: "CHR ''e'' \<in> set (take (length (sanitize_filename ''https://example.com/a?b=1&c=2'') - 4)
      (sanitize_filename ''https://example.com/a?b=1&c=2''))"
    unfolding v by simp
  from sanitize_filename_shape [of "''https://example.com/a?b=1&c=2''"] m
  have "isalnum (CHR ''e'') \<or> CHR ''e'' \<in> set ''._-''"
    unfolding Let_def by blast
  with v m show ?thesis by blast
qed

lemma replace_https_over_http:
  "replace ''https://'' new (''http://'' @ b) = ''http://'' @ replace ''https://'' new b"
proof -
  have "\<not> startswith (''http://'' @ b) ''https://''"
    by (simp add: startswith_def)
  then have "replace ''https://'' new (''http://'' @ b)
      = CHR ''h'' # replace ''https://'' new (''ttp://'' @ b)"
    by (subst replace.simps) simp
  also have "replace ''https://'' new (''ttp://'' @ b) = ''ttp://'' @ replace ''https://'' new b"
    by (rule replace_skip) simp_all
  finally show ?thesis by simp
qed

text \<open>
  Behind any text \<open>a\<close> without the letter \<open>h\<close> (the empty text included) an
  occurrence of \<open>https://\<close> or \<open>http://\<close> is deleted and the removal goes on in the
  rest \<open>b\<close> of the string.
\<close>

lemma remove_scheme_anywhere:
  assumes "CHR ''h'' \<notin> set a"
  shows "remove_scheme (a @ ''https://'' @ b) = a @ remove_scheme b \<and>
         remove_scheme (a @ ''http://'' @ b) = a @ remove_scheme b"
proof
  have s1: "replace ''https://'' '''' (a @ ''https://'' @ b)
      = a @ replace ''https://'' '''' (''https://'' @ b)"
    using assms by (intro replace_skip) simp_all
  have s2: "replace ''https://'' '''' (''https://'' @ b) = replace ''https://'' '''' b"
    using replace_at_start [of "''https://''" "''''" b] by simp
  have s3: "replace ''http://'' '''' (a @ replace ''https://'' '''' b)
      = a @ replace ''http://'' '''' (replace ''https://'' '''' b)"
    using assms by (intro replace_skip) simp_all
  show "remove_scheme (a @ ''https://'' @ b) = a @ remove_scheme b"
    unfolding remove_scheme_def s1 s2 s3 ..
next
  have t1: "replace ''https://'' '''' (a @ ''http://'' @ b)
      = a @ replace ''https://'' '''' (''http://'' @ b)"
    using assms by (intro replace_skip) simp_all
  have t2: "replace ''http://'' '''' (a @ ''http://'' @ replace ''https://'' '''' b)
      = a @ replace ''http://'' '''' (''http://'' @ replace ''https://'' '''' b)"
    using assms by (intro replace_skip) simp_all
  have t3: "replace ''http://'' '''' (''http://'' @ replace ''https://'' '''' b)
      = replace ''http://'' '''' (replace ''https://'' '''' b)"
    using replace_at_start [of "''http://''" "''''" "replace ''https://'' '''' b"] by simp
  show "remove_scheme (a @ ''http://'' @ b) = a @ remove_scheme b"
    unfolding remove_scheme_def t1 replace_https_over_http t2 t3 ..
qed

lemma remove_scheme_anywhere_example:
  "CHR ''h'' \<notin> set ''a/'' \<and>
   remove_scheme (''a/'' @ ''https://'' @ ''b'') = ''a/b'' \<and>
   remove_scheme (''a/'' @ ''http://'' @ ''b'') = ''a/b''"
proof -
  have h: "CHR ''h'' \<notin> set ''a/''" by simp
  have b: "remove_scheme ''b'' = ''b''" by code_simp
  from remove_scheme_anywhere [OF h, of "''b''"] h b show ?thesis by simp
qed

lemma find_first_Some:
  "find_first old s = Some i \<Longrightarrow> occurs_at old s i \<and> (\<forall>j<i. \<not> occurs_at old s j)"
proof (induction s arbitrary: i)
  case Nil
  then show ?case by (auto simp: occurs_at_def split: if_splits)
next
  case (Cons c cs)
  show ?case
  proof (cases "startswith (c # cs) old")
    case True
    with Cons.prems show ?thesis
      by (auto simp: occurs_at_def startswith_def)
  next
    case False
    with Cons.prems obtain k where k: "find_first old cs = Some k" "i = Suc k"
      by auto
    from Cons.IH [OF k(1)] have ih: "occurs_at old cs k" "\<forall>j<k. \<not> occurs_at old cs j"
      by auto
    have "\<not> occurs_at old (c # cs) j" if "j < i" for j
    proof (cases j)
      case 0
      with False show ?thesis by (simp add: occurs_at_def startswith_def)
    next
      case (Suc m)
      with that k(2) ih(2) show ?thesis by (simp add: occurs_at_def)
    qed
    with ih(1) k(2) show ?thesis
      by (simp add: occurs_at_def)
  qed
qed

lemma find_first_None:
  "find_first old s = None \<Longrightarrow> \<not> occurs_at old s i"
proof (induction s arbitrary: i)
  case Nil
  then show ?case by (auto simp: occurs_at_def split: if_splits)
next
  case (Cons c cs)
  then have n: "\<not> startswith (c # cs) old" "find_first old cs = None"
    by (auto split: if_splits)
  show ?case
  proof (cases i)
    case 0
    with n(1) show ?thesis by (simp add: occurs_at_def startswith_def)
  next
    case (Suc m)
    with Cons.IH [OF n(2), of m] show ?thesis by (simp add: occurs_at_def)
  qed
qed

lemma replace_first_occurrence:
  assumes "old \<noteq> []"
  shows "replace old new s =
     (case find_first old s of
        None \<Rightarrow> s
      | Some i \<Rightarrow> take i s @ new @ replace old new (drop (i + length old) s))"
proof (induction s)
  case Nil
  with assms show ?case
    by (subst replace.simps) simp
next
  case (Cons c cs)
  show ?case
  proof (cases "startswith (c # cs) old")
    case True
    with assms show ?thesis
      by (subst replace.simps) simp
  next
    case False
    with assms have r: "replace old new (c # cs) = c # replace old new cs"
      by (subst replace.simps) simp
    show ?thesis
      unfolding r using False
      by (subst Cons.IH) (simp split: option.splits)
  qed
qed

lemma replace_is_delete_all:
  "old \<noteq> [] \<Longrightarrow> replace old '''' s = delete_all old s"
proof (induction old s rule: delete_all.induct)
  case (1 old s)
  show ?case
  proof (cases "find_first old s")
    case None
    with "1.prems" show ?thesis
      by (subst replace_first_occurrence) (simp_all add: delete_all.simps)
  next
    case (Some i)
    with "1.IH" "1.prems"
    have "replace old '''' (drop (i + length old) s) = delete_all old (drop (i + length old) s)"
      by simp
    with Some "1.prems" show ?thesis
      by (subst replace_first_occurrence) (simp_all add: delete_all.simps [of old s])
  qed
qed

lemma find_first_leftmost:
  assumes "occurs_at old s i" and "\<forall>j<i. \<not> occurs_at old s j"
  shows "find_first old s = Some i"
proof (cases "find_first old s")
  case None
  with assms(1) show ?thesis
    using find_first_None by blast
next
  case (Some k)
  from find_first_Some [OF Some] have k: "occurs_at old s k" "\<forall>j<k. \<not> occurs_at old s j"
    by auto
  have "\<not> k < i" using assms(2) k(1) by blast
  moreover have "\<not> i < k" using k(2) assms(1) by blast
  ultimately have "k = i" by simp
  with Some show ?thesis by simp
qed

lemma delete_all_leftmost:
  assumes "old \<noteq> []" and "occurs_at old s i" and "\<forall>j<i. \<not> occurs_at old s j"
  shows "delete_all old s = take i s @ delete_all old (drop (i + length old) s)"
  using assms(1) find_first_leftmost [OF assms(2,3)]
  by (simp add: delete_all.simps [of old s])

lemma delete_all_no_occurrence:
  assumes "\<forall>i. \<not> occurs_at old s i"
  shows "delete_all old s = s"
proof (cases "find_first old s")
  case None
  then show ?thesis by (simp add: delete_all.simps [of old s])
next
  case (Some i)
  with find_first_Some [OF Some] assms show ?thesis by blast
qed

text \<open>
  Claim C1, as the code has it. The scheme is removed wherever it occurs, not only at the
  start of the string: every occurrence of \<open>https://\<close> is deleted, leftmost first and
  going on behind each deleted occurrence, and then every occurrence of \<open>http://\<close>
  is deleted from the result in the same way.
\<close>

theorem remove_scheme_every_occurrence:
  "remove_scheme url = delete_all ''http://'' (delete_all ''https://'' url)"
  by (simp add: remove_scheme_def replace_is_delete_all)

theorem remove_scheme_every_occurrence_witness:
  "remove_scheme ''https://github.com/a/http://b'' = ''github.com/a/b'' \<and>
   find_first ''https://'' ''https://github.com/a/http://b'' = Some 0 \<and>
   find_first ''http://'' ''github.com/a/http://b'' = Some 13"
proof -
  have d: "delete_all ''http://'' (delete_all ''https://'' ''https://github.com/a/http://b'')
      = ''github.com/a/b''"
    by code_simp
  have f: "find_first ''https://'' ''https://github.com/a/http://b'' = Some 0"
    "find_first ''http://'' ''github.com/a/http://b'' = Some 13"
    by code_simp+
  from remove_scheme_every_occurrence [of "''https://github.com/a/http://b''"] d f
  show ?thesis by simp
qed

text \<open>
  Claim C1, as stated, fails: a scheme behind the first character is removed as well, and
  more than one occurrence is removed; the derived filename shows it.
\<close>

theorem remove_scheme_leading_only_counterexample:
  "remove_scheme ''a/http://b'' = ''a/b'' \<and>
   spec_strip_leading_scheme ''a/http://b'' = ''a/http://b'' \<and>
   remove_scheme ''https://a/https://b'' = ''a/b'' \<and>
   spec_strip_leading_scheme ''https://a/https://b'' = ''a/https://b'' \<and>
   sanitize_filename ''https://a/https://b'' = ''a_b.pdf''"
  by code_simp

section \<open>The fallback renderer\<close>

lemma base64_unbound: "\<exists>e. global_name ''base64'' = Inl e"
  by (simp add: global_name_def module_globals_def)

lemma selenium_capture_raises: "\<exists>e. fst (selenium_capture E url p w) = Inl e"
  using base64_unbound
  by (auto simp: selenium_capture_def bindE_def ext_call_def fs_stmt_def lift_def
      split: sum.splits prod.splits)

lemma selenium_capture_calls:
  "\<exists>evs. calls (snd (selenium_capture E url p w)) = calls w @ evs \<and>
     set evs \<subseteq> {DriverGet url, WaitForBody, PrintToPDF}"
  using base64_unbound
  by (auto simp: selenium_capture_def bindE_def ext_call_def fs_stmt_def lift_def
      split: sum.splits prod.splits)

lemma fallback_never_succeeds: "fst (create_pdf_with_selenium E self url p w) = False"
proof -
  obtain e where "fst (selenium_capture E url p (w\<lparr>calls := calls w @ [ChromeLaunch (headless self)]\<rparr>)) = Inl e"
    using selenium_capture_raises by blast
  then show ?thesis
    by (auto simp: create_pdf_with_selenium_def bindE_def ext_call_def try_finally_def
        split: sum.splits prod.splits)
qed

text \<open>
  Claim C2 at a concrete input. Every external call succeeds and the export returns a
  payload; the fallback renderer reports failure, the output file is left empty, and the
  log holds the \<open>NameError\<close> of the decoding step.
\<close>

theorem fallback_with_payload_fails:
  "(case create_pdf_with_selenium all_fine agent0 ''https://example.com''
           ''pdf_output/example.com.pdf'' world0 of
      (ok, w) \<Rightarrow>
        (ok, map_of (files w) ''pdf_output/example.com.pdf'', logged w, calls w))
   = (False, Some (File []),
      [(ERROR, ''Error creating PDF with Selenium for https://example.com: name ''
          @ [CHR 0x27] @ ''base64'' @ [CHR 0x27] @ '' is not defined'')],
      [ChromeLaunch True, DriverGet ''https://example.com'', WaitForBody, PrintToPDF, DriverQuit])"
  by code_simp

text \<open>
  Claim C6. When the browser has been launched, \<open>driver.quit()\<close> is called exactly once,
  and it is the last external call before the fallback renderer returns, whatever the
  steps in between did.
\<close>

theorem browser_quit_on_every_path:
  assumes "webdriver_Chrome E (calls w) (headless self) = Inr ()"
  shows "let c = calls (snd (create_pdf_with_selenium E self url p w));
             new = drop (length (calls w)) c
         in take (length (calls w)) c = calls w \<and>
            hd new = ChromeLaunch (headless self) \<and>
            last new = DriverQuit \<and>
            count_list new DriverQuit = 1"
proof -
  let ?w1 = "w\<lparr>calls := calls w @ [ChromeLaunch (headless self)]\<rparr>"
  obtain evs where evs:
    "calls (snd (selenium_capture E url p ?w1)) = calls ?w1 @ evs"
    "set evs \<subseteq> {DriverGet url, WaitForBody, PrintToPDF}"
    using selenium_capture_calls by blast
  have c: "calls (snd (create_pdf_with_selenium E self url p w))
      = calls w @ ChromeLaunch (headless self) # evs @ [DriverQuit]"
    using assms evs(1)
    by (auto simp: create_pdf_with_selenium_def bindE_def ext_call_def try_finally_def log_msg_def
        split: sum.splits prod.splits)
  have "DriverQuit \<notin> set evs"
    using evs(2) by auto
  then have "count_list evs DriverQuit = 0"
    by (simp add: count_list_0_iff)
  then show ?thesis
    unfolding Let_def c by simp
qed

theorem browser_quit_on_every_path_witness:
  "webdriver_Chrome all_fine (calls world0) (headless agent0) = Inr () \<and>
   last (calls (snd (create_pdf_with_selenium all_fine agent0 ''https://example.com''
      ''pdf_output/example.com.pdf'' world0))) = DriverQuit"
proof -
  have h: "webdriver_Chrome all_fine (calls world0) (headless agent0) = Inr ()"
    by (simp add: all_fine_def)
  have l: "length (calls world0) = 0"
    by (simp add: world0_def)
  from browser_quit_on_every_path [OF h, of "''https://example.com''" "''pdf_output/example.com.pdf''"]
  show ?thesis
    unfolding Let_def l using h by simp
qed

section \<open>The URL collector\<close>

lemma accepted_urls_Cons:
  "accepted_urls (l # ls) = (if classify (strip l) = Accepted then [strip l] else []) @ accepted_urls ls"
  by (simp add: accepted_urls_def)

lemma invalid_warnings_Cons:
  "invalid_warnings n (l # ls) =
     (if classify (strip l) = Rejected
      then [(WARNING, ''Invalid URL at line '' @ str_nat n @ '': '' @ strip l)] else [])
     @ invalid_warnings (Suc n) ls"
  by (simp add: invalid_warnings_def)

lemma read_lines_lines:
  "read_lines (List.enumerate n (map Line ls @ rest)) urls w =
     read_lines (List.enumerate (n + length ls) rest) (urls @ accepted_urls ls)
       (w\<lparr>logged := logged w @ invalid_warnings n ls\<rparr>)"
proof (induction ls arbitrary: n urls w)
  case Nil
  then show ?case
    by (simp add: accepted_urls_def invalid_warnings_def)
next
  case (Cons l ls)
  consider (skip) "classify (strip l) = Skipped"
    | (acc) "classify (strip l) = Accepted"
    | (rej) "classify (strip l) = Rejected"
    by (cases "classify (strip l)") auto
  then show ?case
  proof cases
    case skip
    then have "strip l = [] \<or> startswith (strip l) ''#''"
      by (auto simp: classify_def split: if_splits)
    with skip show ?thesis
      by (auto simp: Cons.IH accepted_urls_Cons invalid_warnings_Cons)
  next
    case acc
    then have "strip l \<noteq> []" "\<not> startswith (strip l) ''#''"
      "startswith (strip l) ''http://'' \<or> startswith (strip l) ''https://''"
      by (auto simp: classify_def split: if_splits)
    with acc show ?thesis
      by (auto simp: Cons.IH accepted_urls_Cons invalid_warnings_Cons)
  next
    case rej
    then have "strip l \<noteq> []" "\<not> startswith (strip l) ''#''"
      "\<not> startswith (strip l) ''http://''" "\<not> startswith (strip l) ''https://''"
      by (auto simp: classify_def split: if_splits)
    with rej show ?thesis
      by (simp add: Cons.IH accepted_urls_Cons invalid_warnings_Cons log_msg_def)
  qed
qed

text \<open>
  Claim C8. When the file is read to its end, the collector returns the trimmed lines
  that start with \<open>http://\<close> or \<open>https://\<close>, in the order of the file and with
  duplicates; blank lines and lines starting with \<open>#\<close> leave no trace; every other
  line adds one warning that carries its line number, counted from 1.
\<close>

theorem read_urls_classifies_lines:
  assumes "open_r (files w) file_path = Inr (map Line ls)"
  shows "read_urls_from_file file_path w =
     (accepted_urls ls,
      w\<lparr>logged := logged w @ invalid_warnings 1 ls @
         [(INFO, ''Read '' @ str_nat (length (accepted_urls ls)) @ '' URLs from '' @ file_path)]\<rparr>)"
  using assms read_lines_lines [of 1 ls "[]" "[]" w]
  by (simp add: read_urls_from_file_def log_msg_def)

theorem read_urls_classifies_lines_witness:
  "open_r (files world0) ''urls.txt''
     = Inr (map Line [''https://example.com\<newline>'', ''not-a-url\<newline>'', ''# comment\<newline>'', ''\<newline>'']) \<and>
   fst (read_urls_from_file ''urls.txt'' world0) = [''https://example.com''] \<and>
   logged (snd (read_urls_from_file ''urls.txt'' world0))
     = [(WARNING, ''Invalid URL at line 2: not-a-url''), (INFO, ''Read 1 URLs from urls.txt'')]"
proof -
  have h: "open_r (files world0) ''urls.txt''
     = Inr (map Line [''https://example.com\<newline>'', ''not-a-url\<newline>'', ''# comment\<newline>'', ''\<newline>''])"
    by (simp add: open_r_def world0_def)
  have a: "accepted_urls [''https://example.com\<newline>'', ''not-a-url\<newline>'', ''# comment\<newline>'', ''\<newline>'']
     = [''https://example.com'']"
    by code_simp
  have i: "invalid_warnings (Suc 0) [''https://example.com\<newline>'', ''not-a-url\<newline>'', ''# comment\<newline>'', ''\<newline>'']
     = [(WARNING, ''Invalid URL at line 2: not-a-url'')]"
    by code_simp
  have n: "str_nat (Suc 0) = ''1''"
    by code_simp
  have l: "logged world0 = []"
    by (simp add: world0_def)
  from read_urls_classifies_lines [OF h] h show ?thesis
    by (simp add: a i n l)
qed

text \<open>
  Claim C3, as the code has it. When the file cannot be opened, the collector logs the
  error and returns no URL. When reading fails after some lines, it logs the error and
  returns the URLs accepted from the lines read before the error.
\<close>

theorem read_urls_on_error:
  "(open_r (files w) file_path = Inl e \<longrightarrow>
      read_urls_from_file file_path w =
        ([], w\<lparr>logged := logged w @
           [(ERROR, ''Error reading file '' @ file_path @ '': '' @ str_exn e)]\<rparr>)) \<and>
   (open_r (files w) file_path = Inr (map Line ls @ ReadError e # rest) \<longrightarrow>
      read_urls_from_file file_path w =
        (accepted_urls ls,
         w\<lparr>logged := logged w @ invalid_warnings 1 ls @
           [(ERROR, ''Error reading file '' @ file_path @ '': '' @ str_exn e)]\<rparr>))"
  using read_lines_lines [of 1 ls "ReadError e # rest" "[]" w]
  by (simp add: read_urls_from_file_def log_msg_def)

theorem read_urls_on_error_witness:
  "open_r (files world0) ''absent.txt''
     = Inl (PyException ''[Errno 2] No such file or directory: absent.txt'') \<and>
   fst (read_urls_from_file ''absent.txt'' world0) = [] \<and>
   open_r (files world0) ''broken.txt''
     = Inr (map Line [''http://a.example/\<newline>''] @ ReadError (PyException ''invalid start byte'') # []) \<and>
   read_urls_from_file ''broken.txt'' world0 =
     ([''http://a.example/''],
      world0\<lparr>logged := [(ERROR, ''Error reading file broken.txt: invalid start byte'')]\<rparr>)"
proof -
  have h1: "open_r (files world0) ''absent.txt''
     = Inl (PyException ''[Errno 2] No such file or directory: absent.txt'')"
    by (simp add: open_r_def world0_def)
  have h2: "open_r (files world0) ''broken.txt''
     = Inr (map Line [''http://a.example/\<newline>''] @ ReadError (PyException ''invalid start byte'') # [])"
    by (simp add: open_r_def world0_def)
  have a: "accepted_urls [''http://a.example/\<newline>''] = [''http://a.example/'']"
    by code_simp
  have i: "invalid_warnings (Suc 0) [''http://a.example/\<newline>''] = []"
    by code_simp
  have l: "logged world0 = []"
    by (simp add: world0_def)
  from read_urls_on_error [of world0 "''absent.txt''"
      "PyException ''[Errno 2] No such file or directory: absent.txt''" "[]" "[]"] h1
  have r1: "fst (read_urls_from_file ''absent.txt'' world0) = []"
    by simp
  from read_urls_on_error [of world0 "''broken.txt''" "PyException ''invalid start byte''"
      "[''http://a.example/\<newline>'']" "[]"] h2
  have r2: "read_urls_from_file ''broken.txt'' world0 =
     ([''http://a.example/''],
      world0\<lparr>logged := [(ERROR, ''Error reading file broken.txt: invalid start byte'')]\<rparr>)"
    by (simp add: a i l)
  from h1 r1 h2 r2 show ?thesis by blast
qed

text \<open>
  Claim C3, as stated, fails: a read error behind an accepted line does not empty the
  result.
\<close>

theorem read_urls_error_not_empty_counterexample:
  "open_r (files world0) ''broken.txt''
     = Inr [Line ''http://a.example/\<newline>'', ReadError (PyException ''invalid start byte'')] \<and>
   fst (read_urls_from_file ''broken.txt'' world0) = [''http://a.example/''] \<and>
   fst (read_urls_from_file ''broken.txt'' world0) \<noteq> []"
  by code_simp

section \<open>The batch driver\<close>

lemma wkhtmltopdf_calls:
  "calls (snd (create_pdf_with_wkhtmltopdf E url p w)) = calls w @ [PdfkitFromUrl url p]"
  by (auto simp: create_pdf_with_wkhtmltopdf_def bindE_def ext_call_def fs_stmt_def log_msg_def
      split: sum.splits prod.splits)

lemma selenium_calls:
  "\<exists>evs. calls (snd (create_pdf_with_selenium E self url p w))
       = calls w @ ChromeLaunch (headless self) # evs \<and>
     set evs \<subseteq> {DriverGet url, WaitForBody, PrintToPDF, DriverQuit}"
proof -
  let ?w1 = "w\<lparr>calls := calls w @ [ChromeLaunch (headless self)]\<rparr>"
  obtain evs where evs:
    "calls (snd (selenium_capture E url p ?w1)) = calls ?w1 @ evs"
    "set evs \<subseteq> {DriverGet url, WaitForBody, PrintToPDF}"
    using selenium_capture_calls by blast
  have "calls (snd (create_pdf_with_selenium E self url p w))
      = calls w @ ChromeLaunch (headless self) # [] \<or>
    calls (snd (create_pdf_with_selenium E self url p w))
      = calls w @ ChromeLaunch (headless self) # evs @ [DriverQuit]"
    using evs(1)
    by (auto simp: create_pdf_with_selenium_def bindE_def ext_call_def try_finally_def log_msg_def
        split: sum.splits prod.splits)
  then show ?thesis
  proof
    assume "calls (snd (create_pdf_with_selenium E self url p w))
      = calls w @ ChromeLaunch (headless self) # []"
    then show ?thesis by (intro exI [of _ "[]"]) simp
  next
    assume "calls (snd (create_pdf_with_selenium E self url p w))
      = calls w @ ChromeLaunch (headless self) # evs @ [DriverQuit]"
    then show ?thesis using evs(2) by (intro exI [of _ "evs @ [DriverQuit]"]) auto
  qed
qed

lemma fallback_invocations_none:
  "set evs \<subseteq> {DriverGet url, WaitForBody, PrintToPDF, DriverQuit} \<Longrightarrow> fallback_invocations evs = 0"
  by (induction evs) (auto simp: fallback_invocations_def)

lemma selenium_invoked_once:
  "calls w = c0 @ pre \<Longrightarrow> fallback_invocations pre = 0 \<Longrightarrow>
   fallback_invocations (drop (length c0) (calls (snd (create_pdf_with_selenium E self url p w)))) = 1"
proof -
  assume c: "calls w = c0 @ pre" and z: "fallback_invocations pre = 0"
  obtain evs where evs:
    "calls (snd (create_pdf_with_selenium E self url p w)) = calls w @ ChromeLaunch (headless self) # evs"
    "set evs \<subseteq> {DriverGet url, WaitForBody, PrintToPDF, DriverQuit}"
    using selenium_calls by blast
  have "fallback_invocations evs = 0"
    using evs(2) by (rule fallback_invocations_none)
  then show ?thesis
    using z by (simp add: evs(1) c fallback_invocations_def)
qed

text \<open>
  Claim C4. \<open>process_url\<close> first runs the primary renderer. When that succeeds,
  \<open>process_url\<close> returns success and the fallback renderer is not invoked. When it
  fails, the fallback renderer is invoked exactly once and its outcome is the outcome of
  \<open>process_url\<close>, which is therefore false only if both renderers failed.
\<close>

theorem process_url_fallback_order:
  "let path = path_join (output_dir self) (sanitize_filename url);
       primary = create_pdf_with_wkhtmltopdf E url path (log_msg INFO (''Processing URL: '' @ url) w);
       w1 = log_msg INFO (''Falling back to Selenium for '' @ url) (snd primary);
       fallback = create_pdf_with_selenium E self url path w1;
       new = drop (length (calls w)) (calls (snd (process_url E self url w)))
   in (fst primary \<longrightarrow>
         process_url E self url w = (True, snd primary) \<and> fallback_invocations new = 0) \<and>
      (\<not> fst primary \<longrightarrow>
         process_url E self url w = fallback \<and> fallback_invocations new = 1) \<and>
      (\<not> fst (process_url E self url w) \<longrightarrow> \<not> fst primary \<and> \<not> fst fallback)"
proof -
  define path where "path = path_join (output_dir self) (sanitize_filename url)"
  define primary where
    "primary = create_pdf_with_wkhtmltopdf E url path (log_msg INFO (''Processing URL: '' @ url) w)"
  define w1 where "w1 = log_msg INFO (''Falling back to Selenium for '' @ url) (snd primary)"
  define fallback where "fallback = create_pdf_with_selenium E self url path w1"
  have pc: "calls (snd primary) = calls w @ [PdfkitFromUrl url path]"
    by (simp add: primary_def wkhtmltopdf_calls log_msg_def)
  have unf: "process_url E self url w =
      (case primary of
         (True, w1) \<Rightarrow> (True, w1)
       | (False, w1) \<Rightarrow>
           create_pdf_with_selenium E self url path
             (log_msg INFO (''Falling back to Selenium for '' @ url) w1))"
    unfolding process_url_def Let_def path_def primary_def ..
  have yes: "process_url E self url w = (True, snd primary)" if "fst primary"
    using that unfolding unf by (cases primary) simp
  have no: "process_url E self url w = fallback" if "\<not> fst primary"
    using that unfolding unf fallback_def w1_def by (cases primary) simp
  have zero: "fallback_invocations (drop (length (calls w)) (calls (snd primary))) = 0"
    by (simp add: pc fallback_invocations_def)
  have "calls w1 = calls w @ [PdfkitFromUrl url path]"
    by (simp add: w1_def log_msg_def pc)
  moreover have "fallback_invocations [PdfkitFromUrl url path] = 0"
    by (simp add: fallback_invocations_def)
  ultimately have one: "fallback_invocations (drop (length (calls w)) (calls (snd fallback))) = 1"
    unfolding fallback_def by (rule selenium_invoked_once)
  have "(fst primary \<longrightarrow>
         process_url E self url w = (True, snd primary) \<and>
         fallback_invocations (drop (length (calls w)) (calls (snd (process_url E self url w)))) = 0) \<and>
      (\<not> fst primary \<longrightarrow>
         process_url E self url w = fallback \<and>
         fallback_invocations (drop (length (calls w)) (calls (snd (process_url E self url w)))) = 1) \<and>
      (\<not> fst (process_url E self url w) \<longrightarrow> \<not> fst primary \<and> \<not> fst fallback)"
    using yes no zero one by (cases "fst primary") auto
  then show ?thesis
    unfolding Let_def path_def primary_def w1_def fallback_def .
qed

theorem process_url_fallback_order_witness:
  "fst (create_pdf_with_wkhtmltopdf all_fine ''https://example.com''
      (path_join (output_dir agent0) (sanitize_filename ''https://example.com''))
      (log_msg INFO (''Processing URL: '' @ ''https://example.com'') world0)) \<and>
   fst (process_url all_fine agent0 ''https://example.com'' world0) \<and>
   fallback_invocations (drop (length (calls world0))
      (calls (snd (process_url all_fine agent0 ''https://example.com'' world0)))) = 0 \<and>
   \<not> fst (create_pdf_with_wkhtmltopdf primary_fails ''https://example.com''
      (path_join (output_dir agent0) (sanitize_filename ''https://example.com''))
      (log_msg INFO (''Processing URL: '' @ ''https://example.com'') world0)) \<and>
   \<not> fst (process_url primary_fails agent0 ''https://example.com'' world0) \<and>
   fallback_invocations (drop (length (calls world0))
      (calls (snd (process_url primary_fails agent0 ''https://example.com'' world0)))) = 1"
proof -
  have p1: "fst (create_pdf_with_wkhtmltopdf all_fine ''https://example.com''
      (path_join (output_dir agent0) (sanitize_filename ''https://example.com''))
      (log_msg INFO (''Processing URL: '' @ ''https://example.com'') world0))"
    by code_simp
  have p2: "\<not> fst (create_pdf_with_wkhtmltopdf primary_fails ''https://example.com''
      (path_join (output_dir agent0) (sanitize_filename ''https://example.com''))
      (log_msg INFO (''Processing URL: '' @ ''https://example.com'') world0))"
    by code_simp
  have f: "\<not> fst (process_url primary_fails agent0 ''https://example.com'' world0)"
    by code_simp
  note t1 = process_url_fallback_order [where E = all_fine and self = agent0
      and url = "''https://example.com''" and w = world0, unfolded Let_def]
  note t2 = process_url_fallback_order [where E = primary_fails and self = agent0
      and url = "''https://example.com''" and w = world0, unfolded Let_def]
  from t1 p1 have a: "fst (process_url all_fine agent0 ''https://example.com'' world0)"
    by (metis fst_conv)
  from t1 p1 have a': "fallback_invocations (drop (length (calls world0))
      (calls (snd (process_url all_fine agent0 ''https://example.com'' world0)))) = 0"
    by blast
  from t2 p2 have b: "fallback_invocations (drop (length (calls world0))
      (calls (snd (process_url primary_fails agent0 ''https://example.com'' world0)))) = 1"
    by blast
  from p1 p2 f a a' b show ?thesis by blast
qed

lemma read_lines_frame:
  "read_lines xs urls w = (r, urls', w') \<Longrightarrow>
   calls w' = calls w \<and> files w' = files w \<and> printed w' = printed w"
  by (induction xs urls w rule: read_lines.induct)
    (auto simp: Let_def log_msg_def split: if_splits)

lemma read_urls_frame:
  "calls (snd (read_urls_from_file p w)) = calls w \<and>
   files (snd (read_urls_from_file p w)) = files w \<and>
   printed (snd (read_urls_from_file p w)) = printed w"
proof (cases "open_r (files w) p")
  case (Inl e)
  then show ?thesis
    by (simp add: read_urls_from_file_def log_msg_def)
next
  case (Inr f)
  obtain r urls w' where rl: "read_lines (List.enumerate 1 f) [] w = (r, urls, w')"
    by (cases "read_lines (List.enumerate 1 f) [] w") auto
  from read_lines_frame [OF rl] Inr rl show ?thesis
    by (cases r) (simp_all add: read_urls_from_file_def log_msg_def)
qed

text \<open>
  Claim C9. When the collector yields no URL for a file, \<open>process_file\<close> calls neither
  renderer (it makes no external call at all and leaves the files as they are), logs the
  warning as its last record, and returns.
\<close>

theorem process_file_without_urls:
  assumes "fst (read_urls_from_file file_path w) = []"
  shows "let w' = process_file E self file_path w in
     render_attempts (drop (length (calls w)) (calls w')) = 0 \<and>
     calls w' = calls w \<and> files w' = files w \<and>
     last (logged w') = (WARNING, ''No valid URLs found in '' @ file_path)"
proof -
  obtain urls w1 where r: "read_urls_from_file file_path w = (urls, w1)"
    by (cases "read_urls_from_file file_path w") auto
  with assms have u: "urls = []" by simp
  from read_urls_frame [of file_path w] r
  have fr: "calls w1 = calls w" "files w1 = files w" by simp_all
  have "process_file E self file_path w
      = log_msg WARNING (''No valid URLs found in '' @ file_path) w1"
    by (simp add: process_file_def r u)
  then show ?thesis
    unfolding Let_def using fr by (simp add: log_msg_def render_attempts_def)
qed

theorem process_file_without_urls_witness:
  "fst (read_urls_from_file ''notes.txt'' world0) = [] \<and>
   calls (process_file all_fine agent0 ''notes.txt'' world0) = calls world0 \<and>
   last (logged (process_file all_fine agent0 ''notes.txt'' world0))
     = (WARNING, ''No valid URLs found in '' @ ''notes.txt'')"
proof -
  have h: "fst (read_urls_from_file ''notes.txt'' world0) = []"
    by code_simp
  note t = process_file_without_urls [OF h, where E = all_fine and self = agent0, unfolded Let_def]
  from t h show ?thesis by blast
qed

section \<open>Directories are never removed\<close>

lemma map_of_filter_other:
  "map_of (filter (\<lambda>e. fst e \<noteq> p) fs) d = (if d = p then None else map_of fs d)"
  by (induction fs) auto

lemma is_dir_fs_put:
  "is_dir (fs_put p n fs) d = (if d = p then n = Dir else is_dir fs d)"
  by (cases n) (simp_all add: is_dir_def fs_put_def map_of_filter_other)

lemma open_w_Inr:
  "open_w fs p = Inr fs' \<Longrightarrow> \<not> is_dir fs p \<and> fs' = fs_put p (File []) fs"
  by (auto simp: open_w_def is_dir_def split: option.splits node.splits if_splits)

lemma open_w_keeps_dir:
  "open_w fs p = Inr fs' \<Longrightarrow> is_dir fs d \<Longrightarrow> is_dir fs' d"
  by (auto simp: is_dir_fs_put dest!: open_w_Inr)

lemma open_a_Inr:
  "open_a fs p = Inr fs' \<Longrightarrow> \<not> is_dir fs p \<and> (fs' = fs \<or> fs' = fs_put p (File []) fs)"
  by (auto simp: open_a_def is_dir_def split: option.splits node.splits if_splits)

lemma open_a_keeps_dir:
  "open_a fs p = Inr fs' \<Longrightarrow> is_dir fs d \<Longrightarrow> is_dir fs' d"
  by (auto simp: is_dir_fs_put dest!: open_a_Inr)

lemma write_file_keeps_dir:
  "write_file p c fs = Inr fs' \<Longrightarrow> is_dir fs d \<Longrightarrow> is_dir fs' d"
  by (auto simp: write_file_def is_dir_fs_put dest!: open_w_Inr split: sum.splits)

lemma mkdir_makes_dir:
  "mkdir_exist_ok fs p = Inr fs' \<Longrightarrow> is_dir fs' p"
proof (cases "map_of fs p")
  case None
  assume "mkdir_exist_ok fs p = Inr fs'"
  with None have "fs' = fs_put p Dir fs"
    by (simp add: mkdir_exist_ok_def split: if_splits)
  then show ?thesis
    by (simp add: is_dir_fs_put)
next
  case (Some n)
  assume "mkdir_exist_ok fs p = Inr fs'"
  with Some show ?thesis
    by (cases n) (simp_all add: mkdir_exist_ok_def is_dir_def)
qed

lemma mkdir_succeeds_iff:
  "(\<exists>fs'. mkdir_exist_ok fs p = Inr fs') =
     (is_dir fs p \<or> map_of fs p = None \<and> is_dir fs (parent p))"
  by (auto simp: mkdir_exist_ok_def is_dir_def split: option.splits node.splits)

lemma wkhtmltopdf_keeps_dir:
  "is_dir (files w) d \<Longrightarrow> is_dir (files (snd (create_pdf_with_wkhtmltopdf E url p w))) d"
  by (auto simp: create_pdf_with_wkhtmltopdf_def bindE_def ext_call_def fs_stmt_def log_msg_def
      dest: write_file_keeps_dir split: sum.splits prod.splits)

lemma selenium_capture_files:
  "files (snd (selenium_capture E url p w)) = files w \<or>
   open_w (files w) p = Inr (files (snd (selenium_capture E url p w)))"
  using base64_unbound
  by (auto simp: selenium_capture_def bindE_def ext_call_def fs_stmt_def lift_def
      split: sum.splits prod.splits)

lemma selenium_keeps_dir:
  assumes "is_dir (files w) d"
  shows "is_dir (files (snd (create_pdf_with_selenium E self url p w))) d"
proof -
  let ?w1 = "w\<lparr>calls := calls w @ [ChromeLaunch (headless self)]\<rparr>"
  have "is_dir (files (snd (selenium_capture E url p ?w1))) d"
    using selenium_capture_files [of E url p ?w1] assms
    by (auto dest: open_w_keeps_dir)
  then show ?thesis
    using assms
    by (auto simp: create_pdf_with_selenium_def bindE_def ext_call_def try_finally_def log_msg_def
        split: sum.splits prod.splits)
qed

lemma process_url_keeps_dir:
  assumes "is_dir (files w) d"
  shows "is_dir (files (snd (process_url E self url w))) d"
proof -
  define path where "path = path_join (output_dir self) (sanitize_filename url)"
  define primary where
    "primary = create_pdf_with_wkhtmltopdf E url path (log_msg INFO (''Processing URL: '' @ url) w)"
  have unf: "process_url E self url w =
      (case primary of
         (True, w1) \<Rightarrow> (True, w1)
       | (False, w1) \<Rightarrow>
           create_pdf_with_selenium E self url path
             (log_msg INFO (''Falling back to Selenium for '' @ url) w1))"
    unfolding process_url_def Let_def path_def primary_def ..
  have "is_dir (files (log_msg INFO (''Processing URL: '' @ url) w)) d"
    using assms by (simp add: log_msg_def)
  then have p: "is_dir (files (snd primary)) d"
    unfolding primary_def by (rule wkhtmltopdf_keeps_dir)
  then have "is_dir (files (log_msg INFO (''Falling back to Selenium for '' @ url) (snd primary))) d"
    by (simp add: log_msg_def)
  then have "is_dir (files (snd (create_pdf_with_selenium E self url path
      (log_msg INFO (''Falling back to Selenium for '' @ url) (snd primary))))) d"
    by (rule selenium_keeps_dir)
  with p show ?thesis
    unfolding unf by (cases primary) (auto split: bool.splits)
qed

lemma process_urls_keeps_dir:
  "is_dir (files w) d \<Longrightarrow> is_dir (files (snd (process_urls E self urls n w))) d"
proof (induction urls arbitrary: n w)
  case Nil
  then show ?case by simp
next
  case (Cons url urls)
  obtain ok w' where r: "process_url E self url w = (ok, w')"
    by (cases "process_url E self url w") auto
  with process_url_keeps_dir [OF Cons.prems, of E self url] have "is_dir (files w') d"
    by simp
  then show ?case
    using Cons.IH r by simp
qed

lemma process_file_keeps_dir:
  assumes "is_dir (files w) d"
  shows "is_dir (files (process_file E self file_path w)) d"
proof -
  obtain urls w1 where r: "read_urls_from_file file_path w = (urls, w1)"
    by (cases "read_urls_from_file file_path w") auto
  with read_urls_frame [of file_path w] assms have d1: "is_dir (files w1) d"
    by simp
  obtain k w2 where u: "process_urls E self urls 0 w1 = (k, w2)"
    by (cases "process_urls E self urls 0 w1") auto
  with process_urls_keeps_dir [OF d1, of E self urls 0] have "is_dir (files w2) d"
    by simp
  with d1 show ?thesis
    by (simp add: process_file_def r u log_msg_def)
qed

lemma process_files_keeps_dir:
  "is_dir (files w) d \<Longrightarrow> is_dir (files (process_files E self fs w)) d"
proof (induction fs arbitrary: w)
  case Nil
  then show ?case by simp
next
  case (Cons f fs)
  have "is_dir (files (log_msg INFO (''Processing file: '' @ f) w)) d"
    using Cons.prems by (simp add: log_msg_def)
  then have "is_dir (files (process_file E self f (log_msg INFO (''Processing file: '' @ f) w))) d"
    by (rule process_file_keeps_dir)
  then show ?case
    using Cons.IH by simp
qed

lemma process_directory_keeps_dir:
  "is_dir (files w) d \<Longrightarrow> is_dir (files (process_directory E self p w)) d"
  by (simp add: process_directory_def Let_def log_msg_def process_files_keeps_dir)

section \<open>The entry point\<close>

lemma init_cases:
  "URLToPDFAgent_init out hl w =
     (case mkdir_exist_ok (files w) (Path out) of
        Inl e \<Rightarrow> (Inl e, w)
      | Inr fs1 \<Rightarrow>
          (case open_a fs1 ''url_to_pdf_agent.log'' of
             Inl e \<Rightarrow> (Inl e, w\<lparr>files := fs1\<rparr>)
           | Inr fs2 \<Rightarrow> (Inr \<lparr>output_dir = Path out, headless = hl\<rparr>, w\<lparr>files := fs2\<rparr>)))"
  by (simp add: URLToPDFAgent_init_def setup_logging_def bindE_def fs_stmt_def lift_def
      split: sum.splits)

text \<open>
  Claim C7, as the code has it. The exit status is 1 when constructing the agent raises
  (the output directory cannot be created, or the log file cannot be opened) and when
  the input path is neither an existing file nor an existing directory; in every other
  case it is 0, whatever the renderers did.
\<close>

theorem main_exit_status:
  "fst (main E a w) =
     (case URLToPDFAgent_init (arg_output a) (\<not> arg_no_headless a) w of
        (Inl e, w1) \<Rightarrow> 1
      | (Inr self, w1) \<Rightarrow>
          if is_file (files w1) (Path (arg_input a)) \<or> is_dir (files w1) (Path (arg_input a))
          then 0 else 1)"
  by (simp add: main_def Let_def split: prod.splits sum.splits)

theorem main_exit_status_witness:
  "URLToPDFAgent_init ''pdf_output'' True world0
     = (Inr agent0, world0\<lparr>files := fs_put ''url_to_pdf_agent.log'' (File []) (files world0)\<rparr>) \<and>
   fst (main primary_fails \<lparr>arg_input = ''urls.txt'', arg_output = ''pdf_output'',
      arg_no_headless = False\<rparr> world0) = 0 \<and>
   fst (main primary_fails \<lparr>arg_input = ''absent'', arg_output = ''pdf_output'',
      arg_no_headless = False\<rparr> world0) = 1"
proof -
  have i: "URLToPDFAgent_init ''pdf_output'' True world0
     = (Inr agent0, world0\<lparr>files := fs_put ''url_to_pdf_agent.log'' (File []) (files world0)\<rparr>)"
    by code_simp
  have f: "is_file (fs_put ''url_to_pdf_agent.log'' (File []) (files world0)) (Path ''urls.txt'')"
    by code_simp
  have g: "\<not> is_file (fs_put ''url_to_pdf_agent.log'' (File []) (files world0)) (Path ''absent'')"
    "\<not> is_dir (fs_put ''url_to_pdf_agent.log'' (File []) (files world0)) (Path ''absent'')"
    by code_simp+
  have "fst (main primary_fails \<lparr>arg_input = ''urls.txt'', arg_output = ''pdf_output'',
      arg_no_headless = False\<rparr> world0) = 0"
    using main_exit_status [where E = primary_fails and w = world0
        and a = "\<lparr>arg_input = ''urls.txt'', arg_output = ''pdf_output'', arg_no_headless = False\<rparr>"]
    by (simp add: i f)
  moreover have "fst (main primary_fails \<lparr>arg_input = ''absent'', arg_output = ''pdf_output'',
      arg_no_headless = False\<rparr> world0) = 1"
    using main_exit_status [where E = primary_fails and w = world0
        and a = "\<lparr>arg_input = ''absent'', arg_output = ''pdf_output'', arg_no_headless = False\<rparr>"]
    by (simp add: i g)
  ultimately show ?thesis using i by blast
qed

text \<open>
  Claim C7, as stated, fails: the input path is an existing file, yet the exit status is
  1, because the parent of the output directory does not exist and \<open>mkdir\<close> raises.
\<close>

theorem main_exit_status_counterexample:
  "is_file (files world0) (Path ''urls.txt'') \<and>
   fst (main all_fine \<lparr>arg_input = ''urls.txt'', arg_output = ''missing/out'',
      arg_no_headless = False\<rparr> world0) = 1"
  by code_simp

text \<open>
  Claim C10, as the code has it. Whenever \<open>mkdir\<close> succeeds on the output path (it is a
  directory already, or it does not exist and its parent is a directory), the output
  directory exists when \<open>main\<close> is over, also when the input path is invalid and the exit
  status is 1.
\<close>

theorem output_dir_exists_after_main:
  assumes "mkdir_exist_ok (files w) (Path (arg_output a)) = Inr fs1"
  shows "is_dir (files (snd (main E a w))) (Path (arg_output a))"
proof -
  let ?d = "Path (arg_output a)"
  have d1: "is_dir fs1 ?d"
    using assms by (rule mkdir_makes_dir)
  show ?thesis
  proof (cases "open_a fs1 ''url_to_pdf_agent.log''")
    case (Inl e)
    then show ?thesis
      using assms d1 by (simp add: main_def init_cases)
  next
    case (Inr fs2)
    then have d2: "is_dir fs2 ?d"
      using d1 by (rule open_a_keeps_dir)
    let ?self = "\<lparr>output_dir = ?d, headless = \<not> arg_no_headless a\<rparr>"
    let ?w1 = "w\<lparr>files := fs2\<rparr>"
    have dw: "is_dir (files ?w1) ?d"
      using d2 by simp
    have f: "is_dir (files (process_file E ?self (Path (arg_input a)) ?w1)) ?d"
      using dw by (rule process_file_keeps_dir)
    have g: "is_dir (files (process_directory E ?self (Path (arg_input a)) ?w1)) ?d"
      using dw by (rule process_directory_keeps_dir)
    show ?thesis
      using assms Inr d2 f g by (simp add: main_def init_cases Let_def)
  qed
qed

theorem output_dir_exists_after_main_witness:
  "mkdir_exist_ok (files world0) (Path (arg_output \<lparr>arg_input = ''absent'', arg_output = ''out'',
      arg_no_headless = False\<rparr>)) = Inr (fs_put ''out'' Dir (files world0)) \<and>
   fst (main all_fine \<lparr>arg_input = ''absent'', arg_output = ''out'', arg_no_headless = False\<rparr> world0) = 1 \<and>
   is_dir (files (snd (main all_fine \<lparr>arg_input = ''absent'', arg_output = ''out'',
      arg_no_headless = False\<rparr> world0)))
     (Path (arg_output \<lparr>arg_input = ''absent'', arg_output = ''out'', arg_no_headless = False\<rparr>))"
proof -
  have h: "mkdir_exist_ok (files world0) (Path (arg_output \<lparr>arg_input = ''absent'',
      arg_output = ''out'', arg_no_headless = False\<rparr>)) = Inr (fs_put ''out'' Dir (files world0))"
    by code_simp
  have x: "fst (main all_fine \<lparr>arg_input = ''absent'', arg_output = ''out'',
      arg_no_headless = False\<rparr> world0) = 1"
    by code_simp
  from output_dir_exists_after_main [OF h, where E = all_fine] h x show ?thesis
    by blast
qed

text \<open>
  Claim C10, as stated, fails: with an output path whose parent is missing, the output
  directory does not exist when \<open>main\<close> is over.
\<close>

theorem output_dir_missing_counterexample:
  "\<not> is_dir (files (snd (main all_fine \<lparr>arg_input = ''urls.txt'', arg_output = ''missing/out'',
      arg_no_headless = False\<rparr> world0))) (Path ''missing/out'')"
  by code_simp

end
